theory Spec2Isabelle
  imports Main
begin

section \<open>JavaScript values\<close>

text \<open>
  The routes of \<^verbatim>\<open>lib/routes/collection.js\<close> compute with JavaScript values: request
  parameters, parsed literals, documents of the store and the stubs of the size guard.

  A number is a double. The model has the doubles whose value is an integer
  (\<open>Finite n\<close>, where negative zero is not told from zero), the two infinities, the
  not-a-number value, and \<open>Other t\<close>: the double that \<^verbatim>\<open>Number\<close> assigns to a text \<open>t\<close>
  that is not a decimal integer literal (a fraction, an exponent, \<^verbatim>\<open>Infinity\<close>, or NaN
  for a text that is no numeral at all). The model keeps the text and never inspects
  such a number.

  An object is the list of its own enumerable fields in enumeration order, with distinct
  keys. \<open>JRegExp\<close>, \<open>JBinary\<close> and \<open>JObjectId\<close> are the instances of host and
  driver classes that the converters build; the other classes of the driver (dates,
  decimals, long integers) are not values of the model. Strings are ASCII texts.
\<close>

datatype integral = Finite int | PlusInfinity | MinusInfinity

datatype jsnum = NaN | Integral integral | Other string

abbreviation Fin :: "int \<Rightarrow> jsnum" where
  "Fin n \<equiv> Integral (Finite n)"

datatype jsval =
    JUndefined
  | JNull
  | JBool bool
  | JNum jsnum
  | JStr string
  | JArr "jsval list"
  | JObj "(string \<times> jsval) list"
  | JRegExp string string
  | JBinary "nat list" nat
  | JObjectId string

datatype error =
    InvalidQueryType string
  | QueryNotValid
  | SyntaxError
  | ParseError
  | TypeError
  | StoreOperationError

text \<open>Reading a field \<^verbatim>\<open>v.name\<close> of a value that is not null or undefined, for a name that
  no prototype provides (\<^verbatim>\<open>_id\<close>, \<^verbatim>\<open>items\<close>, \<^verbatim>\<open>count\<close>, \<^verbatim>\<open>name\<close>): an own field of an
  object, undefined otherwise.\<close>

fun field :: "jsval \<Rightarrow> string \<Rightarrow> jsval" where
  "field (JObj kvs) k = (case map_of kvs k of Some v \<Rightarrow> v | None \<Rightarrow> JUndefined)"
| "field _ k = JUndefined"

fun nullish :: "jsval \<Rightarrow> bool" where
  "nullish JUndefined = True"
| "nullish JNull = True"
| "nullish _ = False"

text \<open>\<^verbatim>\<open>Object.keys(v).length\<close>, for a value that is not null or undefined. An array has
  its indices and a string its positions; a number, a boolean and a regular expression
  have no own enumerable field. An instance of the driver's \<open>Binary\<close> has the fields
  \<^verbatim>\<open>buffer\<close>, \<^verbatim>\<open>sub_type\<close> and \<^verbatim>\<open>position\<close>, and an instance of \<open>ObjectId\<close> the one
  field that holds its bytes.\<close>

fun Object_keys_length :: "jsval \<Rightarrow> nat" where
  "Object_keys_length (JObj kvs) = length kvs"
| "Object_keys_length (JArr xs) = length xs"
| "Object_keys_length (JStr s) = length s"
| "Object_keys_length (JBinary b t) = 3"
| "Object_keys_length (JObjectId x) = 1"
| "Object_keys_length _ = 0"

subsection \<open>Strings and numerals\<close>

definition upper_char :: "char \<Rightarrow> char" where
  "upper_char c =
     (case map_of (zip ''abcdefghijklmnopqrstuvwxyz'' ''ABCDEFGHIJKLMNOPQRSTUVWXYZ'') c of
        Some u \<Rightarrow> u
      | None \<Rightarrow> c)"

text \<open>\<^verbatim>\<open>String.prototype.toUpperCase\<close>, on ASCII text.\<close>

definition toUpperCase :: "string \<Rightarrow> string" where
  "toUpperCase s = map upper_char s"

text \<open>White space and line terminators, as far as ASCII has them.\<close>

definition is_ws :: "char \<Rightarrow> bool" where
  "is_ws c = ((of_char c :: nat) \<in> {9, 10, 11, 12, 13, 32})"

definition trim :: "string \<Rightarrow> string" where
  "trim s = rev (dropWhile is_ws (rev (dropWhile is_ws s)))"

definition is_digit :: "char \<Rightarrow> bool" where
  "is_digit c = (let n = (of_char c :: nat) in 48 \<le> n \<and> n \<le> 57)"

definition digits_value :: "string \<Rightarrow> int" where
  "digits_value ds = foldl (\<lambda>a c. 10 * a + (int (of_char c) - 48)) 0 ds"

text \<open>An optional sign in front of a text: whether it is a minus, and the rest.\<close>

fun sign_split :: "string \<Rightarrow> bool \<times> string" where
  "sign_split [] = (False, [])"
| "sign_split (c # r) =
     (if c = CHR ''-'' then (True, r) else if c = CHR ''+'' then (False, r) else (False, c # r))"

text \<open>The number of binary digits of a positive integer.\<close>

fun bit_length :: "int \<Rightarrow> nat" where
  "bit_length n = (if n \<le> 0 then 0 else Suc (bit_length (n div 2)))"

declare bit_length.simps [simp del]

text \<open>The double nearest a non-negative integer: the integer is cut to its 53 leading
  binary digits, rounding to nearest and a tie to the even neighbour; \<open>None\<close> when the
  result is beyond the largest double (it reaches 2^1024), which is an infinity.\<close>

definition round_to_double :: "int \<Rightarrow> int option" where
  "round_to_double n =
     (let e = bit_length n - 53;
          q = n div 2 ^ e;
          r = n mod 2 ^ e;
          m = (if 2 ^ e < 2 * r \<or> (2 * r = 2 ^ e \<and> odd q) then q + 1 else q) * 2 ^ e
      in if 2 ^ 1024 \<le> m then None else Some m)"

text \<open>The double that stands for a mathematical integer: rounding is symmetric in the
  sign.\<close>

definition to_double :: "int \<Rightarrow> integral" where
  "to_double n =
     (if 0 \<le> n
      then (case round_to_double n of None \<Rightarrow> PlusInfinity | Some m \<Rightarrow> Finite m)
      else (case round_to_double (- n) of None \<Rightarrow> MinusInfinity | Some m \<Rightarrow> Finite (- m)))"

text \<open>The sum \<^verbatim>\<open>a + b\<close> of a finite integral double and an integral double: the double
  nearest the exact sum.\<close>

fun plus_double :: "int \<Rightarrow> integral \<Rightarrow> integral" where
  "plus_double a (Finite b) = to_double (a + b)"
| "plus_double a PlusInfinity = PlusInfinity"
| "plus_double a MinusInfinity = MinusInfinity"

text \<open>The integer that a text starts with: leading white space is skipped, a sign is
  read, then the longest run of decimal digits; \<open>None\<close> when there is no digit.\<close>

definition leading_integer :: "string \<Rightarrow> int option" where
  "leading_integer s =
     (let (neg, r) = sign_split (dropWhile is_ws s);
          ds = takeWhile is_digit r
      in if ds = [] then None
         else Some (if neg then - digits_value ds else digits_value ds))"

text \<open>\<^verbatim>\<open>Number.parseInt(s, 10)\<close> of a string: the double of the integer that the text
  starts with, as the engine of Node computes it; \<open>None\<close> is NaN (no digit).\<close>

definition parseInt10 :: "string \<Rightarrow> integral option" where
  "parseInt10 s = map_option to_double (leading_integer s)"

text \<open>\<^verbatim>\<open>Number(s)\<close> of a string: the trimmed text is empty (0), a signed decimal integer
  literal (its double), or something else.\<close>

definition Number_of :: "string \<Rightarrow> jsnum" where
  "Number_of s =
     (let t = trim s; (neg, r) = sign_split t
      in if t = [] then Fin 0
         else if r \<noteq> [] \<and> list_all is_digit r
           then Integral (to_double (if neg then - digits_value r else digits_value r))
         else Other t)"

definition hex_value :: "char \<Rightarrow> nat option" where
  "hex_value c =
     (let n = (of_char c :: nat)
      in if 48 \<le> n \<and> n \<le> 57 then Some (n - 48)
         else if 97 \<le> n \<and> n \<le> 102 then Some (n - 87)
         else if 65 \<le> n \<and> n \<le> 70 then Some (n - 55)
         else None)"

text \<open>\<^verbatim>\<open>Buffer.from(s, 'hex')\<close>: the bytes of the pairs of hexadecimal digits, up to the
  first pair that is not one.\<close>

fun Buffer_from_hex :: "string \<Rightarrow> nat list" where
  "Buffer_from_hex (a # b # r) =
     (case (hex_value a, hex_value b) of
        (Some x, Some y) \<Rightarrow> (16 * x + y) # Buffer_from_hex r
      | _ \<Rightarrow> [])"
| "Buffer_from_hex _ = []"

text \<open>\<^verbatim>\<open>value.replaceAll('-', '')\<close>.\<close>

definition strip_hyphens :: "string \<Rightarrow> string" where
  "strip_hyphens s = filter (\<lambda>c. c \<noteq> CHR ''-'') s"

text \<open>Truthiness of an optional string parameter: present and not empty.\<close>

fun truthy :: "string option \<Rightarrow> bool" where
  "truthy None = False"
| "truthy (Some s) = (s \<noteq> [])"

section \<open>The environment of the routes\<close>

text \<open>
  Functions that the routes call and whose code is not part of the route file: built-ins
  of the JavaScript engine, the \<^verbatim>\<open>bson\<close> library, and the helpers of
  \<^verbatim>\<open>lib/bson.js\<close> and \<^verbatim>\<open>lib/utils.js\<close>. They are parameters of the model.
  \<^item> \<open>JSON_parse\<close>, \<open>EJSON_parse\<close>: \<open>None\<close> when the parser throws.
  \<^item> \<open>RegExp_compiles\<close>: whether \<^verbatim>\<open>new RegExp(s, 'i')\<close> returns (it throws otherwise).
  \<^item> \<open>parseObjectId\<close>: the value that the helper returns, \<open>None\<close> when it throws.
  \<^item> \<open>toSafeBSON\<close>: the parsed literal, \<open>JNull\<close> when the text does not parse.
  \<^item> \<open>roughSizeOfObject\<close>, \<open>bytesToSize\<close>: the size heuristic and its rendering.
  \<^item> \<open>JSON_stringify\<close>: \<open>None\<close> when the result is undefined or the call throws.
  \<^item> \<open>gt_zero\<close>: the comparison \<^verbatim>\<open>v > 0\<close> with the engine's coercions, for a value that
    is not known to be a number.
\<close>

record host =
  JSON_parse :: "string \<Rightarrow> jsval option"
  EJSON_parse :: "string \<Rightarrow> jsval option"
  RegExp_compiles :: "string \<Rightarrow> bool"
  parseObjectId :: "string \<Rightarrow> jsval option"
  toSafeBSON :: "string \<Rightarrow> jsval"
  roughSizeOfObject :: "jsval \<Rightarrow> int"
  bytesToSize :: "int \<Rightarrow> string"
  JSON_stringify :: "jsval \<Rightarrow> string option"
  gt_zero :: "jsval \<Rightarrow> bool"

text \<open>The fields of \<^verbatim>\<open>config.options\<close> and \<^verbatim>\<open>config.mongodb\<close> that the routes read. The
  sizes are integers that a double holds.\<close>

record config =
  documentsPerPage :: int
  maxPropSize :: int
  maxRowSize :: int
  allowDiskUse :: bool
  awsDocumentDb :: bool

text \<open>The parameters of \<^verbatim>\<open>req.query\<close>: each is absent or a string, and \<^verbatim>\<open>sort\<close> is absent
  or a mapping from field to direction text.\<close>

record query_params =
  q_key :: "string option"
  q_value :: "string option"
  q_type :: "string option"
  q_query :: "string option"
  q_sort :: "(string \<times> string) list option"
  q_projection :: "string option"
  q_skip :: "string option"
  q_runAggregate :: "string option"

section \<open>Typed value converters\<close>

definition conv_J :: "host \<Rightarrow> string \<Rightarrow> error + jsval" where
  "conv_J h v = (case JSON_parse h v of None \<Rightarrow> Inl SyntaxError | Some x \<Rightarrow> Inr x)"

definition conv_N :: "string \<Rightarrow> error + jsval" where
  "conv_N v = Inr (JNum (Number_of v))"

text \<open>The converter of the tag O returns what \<^verbatim>\<open>bson.parseObjectId\<close> returns, as it is.\<close>

definition conv_O :: "host \<Rightarrow> string \<Rightarrow> error + jsval" where
  "conv_O h v = (case parseObjectId h v of None \<Rightarrow> Inl ParseError | Some x \<Rightarrow> Inr x)"

definition conv_R :: "host \<Rightarrow> string \<Rightarrow> error + jsval" where
  "conv_R h v = (if RegExp_compiles h v then Inr (JRegExp v ''i'') else Inl SyntaxError)"

text \<open>\<^verbatim>\<open>Binary.SUBTYPE_UUID\<close> is 4.\<close>

definition conv_U :: "string \<Rightarrow> error + jsval" where
  "conv_U v = Inr (JBinary (Buffer_from_hex (strip_hyphens v)) 4)"

definition conv_S :: "string \<Rightarrow> error + jsval" where
  "conv_S v = Inr (JStr v)"

text \<open>The table \<^verbatim>\<open>converters\<close>: the converter stored under a name, if there is one.\<close>

definition converters :: "host \<Rightarrow> string \<Rightarrow> (string \<Rightarrow> error + jsval) option" where
  "converters h t =
     (if t = ''J'' then Some (conv_J h)
      else if t = ''N'' then Some conv_N
      else if t = ''O'' then Some (conv_O h)
      else if t = ''R'' then Some (conv_R h)
      else if t = ''U'' then Some conv_U
      else if t = ''S'' then Some conv_S
      else None)"

section \<open>Query, sort, projection and paging options\<close>

text \<open>
  \<^verbatim>\<open>_getQuery\<close>. \<^verbatim>\<open>req.query.type?.toUpperCase()\<close> is undefined for an absent type, and
  \<^verbatim>\<open>undefined in converters\<close> looks the name \<^verbatim>\<open>undefined\<close> up. The \<^verbatim>\<open>in\<close> operator also
  finds the fields of \<^verbatim>\<open>Object.prototype\<close>, but each of their names has a lower-case
  letter and no upper-cased text equals one.
\<close>

definition getQuery :: "host \<Rightarrow> query_params \<Rightarrow> error + jsval" where
  "getQuery h q =
     (if truthy (q_key q) \<and> truthy (q_value q) then
        (case map_option toUpperCase (q_type q) of
           None \<Rightarrow> Inl (InvalidQueryType ''undefined'')
         | Some t \<Rightarrow>
             (case converters h t of
                None \<Rightarrow> Inl (InvalidQueryType t)
              | Some conv \<Rightarrow>
                  (case conv (the (q_value q)) of
                     Inl e \<Rightarrow> Inl e
                   | Inr v \<Rightarrow> Inr (JObj [(the (q_key q), v)]))))
      else if truthy (q_query q) then
        (let result = toSafeBSON h (the (q_query q))
         in if result = JNull then Inl QueryNotValid else Inr result)
      else Inr (JObj []))"

fun opt_num :: "integral option \<Rightarrow> jsnum" where
  "opt_num None = NaN"
| "opt_num (Some n) = Integral n"

text \<open>\<^verbatim>\<open>_getSort\<close>: a sort mapping is truthy whenever it is present.\<close>

definition getSort :: "query_params \<Rightarrow> (string \<times> jsval) list" where
  "getSort q =
     (case q_sort q of
        None \<Rightarrow> []
      | Some srt \<Rightarrow> map (\<lambda>(i, d). (i, JNum (opt_num (parseInt10 d)))) srt)"

text \<open>\<^verbatim>\<open>_getProjection\<close>: \<^verbatim>\<open>toSafeBSON(projection) ?? {}\<close>.\<close>

definition getProjection :: "host \<Rightarrow> query_params \<Rightarrow> jsval" where
  "getProjection h q =
     (if truthy (q_projection q) then
        (let r = toSafeBSON h (the (q_projection q)) in if nullish r then JObj [] else r)
      else JObj [])"

record queryOptions =
  qo_sort :: "(string \<times> jsval) list"
  qo_limit :: int
  qo_skip :: integral
  qo_projection :: jsval
  qo_allowDiskUse :: "bool option"

text \<open>\<^verbatim>\<open>Number.parseInt(req.query.skip, 10) || 0\<close>: an absent parameter is the text
  \<^verbatim>\<open>undefined\<close>, which has no digit; NaN and 0 are falsy, every other double (an
  infinity too) is truthy.\<close>

definition resolve_skip :: "string option \<Rightarrow> integral" where
  "resolve_skip p =
     (case (case p of None \<Rightarrow> None | Some s \<Rightarrow> parseInt10 s) of
        None \<Rightarrow> Finite 0
      | Some n \<Rightarrow> if n = Finite 0 then Finite 0 else n)"

definition getQueryOptions :: "host \<Rightarrow> config \<Rightarrow> query_params \<Rightarrow> queryOptions" where
  "getQueryOptions h cfg q =
     \<lparr> qo_sort = getSort q,
       qo_limit = documentsPerPage cfg,
       qo_skip = resolve_skip (q_skip q),
       qo_projection = getProjection h q,
       qo_allowDiskUse = None \<rparr>"

section \<open>Aggregation pipeline\<close>

definition num :: "int \<Rightarrow> jsval" where
  "num n = JNum (Fin n)"

definition facet_stage :: "queryOptions \<Rightarrow> jsval" where
  "facet_stage qo =
     JObj [(''$facet'', JObj
       [(''count'', JArr [JObj [(''$count'', JStr ''count'')]]),
        (''items'', JArr
           ([JObj [(''$skip'', JNum (Integral (qo_skip qo)))],
             JObj [(''$limit'', JNum (Integral (plus_double (qo_limit qo) (qo_skip qo))))]]
            @ (if Object_keys_length (qo_projection qo) > 0
               then [JObj [(''$project'', qo_projection qo)]] else [])))])]"

definition getAggregatePipeline :: "jsval list \<Rightarrow> queryOptions \<Rightarrow> jsval list" where
  "getAggregatePipeline pipeline qo =
     pipeline
     @ (if Object_keys_length (JObj (qo_sort qo)) > 0
        then [JObj [(''$sort'', JObj (qo_sort qo))]] else [])
     @ [facet_stage qo]"

section \<open>Result executor\<close>

text \<open>
  The operations of the collection, as the routes use them; \<open>None\<close> is a rejected
  promise. \<open>st_aggregate\<close> takes the pipeline and the \<^verbatim>\<open>allowDiskUse\<close> option and gives the
  documents of \<^verbatim>\<open>toArray()\<close>; \<open>st_count\<close> gives the count; \<open>st_insertMany\<close> gives
  \<^verbatim>\<open>insertedCount\<close>.
\<close>

record store =
  st_aggregate :: "jsval list \<Rightarrow> bool \<Rightarrow> jsval list option"
  st_find :: "jsval \<Rightarrow> queryOptions \<Rightarrow> jsval list option"
  st_count :: "jsval \<Rightarrow> jsval option"
  st_insertMany :: "jsval list \<Rightarrow> int option"

text \<open>The operations a route has issued, in order.\<close>

datatype store_call =
    Aggregate "jsval list" bool
  | Find jsval queryOptions
  | Count jsval
  | InsertMany "jsval list"

record pageResult =
  pr_items :: jsval
  pr_count :: jsval

text \<open>\<^verbatim>\<open>query.constructor.name === 'Array'\<close>. An array inherits \<^verbatim>\<open>constructor\<close> from
  \<^verbatim>\<open>Array.prototype\<close>. An object inherits \<^verbatim>\<open>Object\<close> unless it has a field of its own
  called \<^verbatim>\<open>constructor\<close>; then \<^verbatim>\<open>.name\<close> is read from that field's value, which throws
  when the value is null or undefined.\<close>

fun constructor_is_Array :: "jsval \<Rightarrow> error + bool" where
  "constructor_is_Array JUndefined = Inl TypeError"
| "constructor_is_Array JNull = Inl TypeError"
| "constructor_is_Array (JArr xs) = Inr True"
| "constructor_is_Array (JObj kvs) =
     (case map_of kvs ''constructor'' of
        None \<Rightarrow> Inr False
      | Some c \<Rightarrow> if nullish c then Inl TypeError else Inr (field c ''name'' = JStr ''Array''))"
| "constructor_is_Array _ = Inr False"

text \<open>\<^verbatim>\<open>query.length > 0\<close> for an object: a missing field is undefined, and the comparison
  is false.\<close>

definition own_length_gt_zero :: "host \<Rightarrow> (string \<times> jsval) list \<Rightarrow> bool" where
  "own_length_gt_zero h kvs =
     (case map_of kvs ''length'' of None \<Rightarrow> False | Some v \<Rightarrow> gt_zero h v)"

text \<open>\<^verbatim>\<open>count.at(0)?.count\<close>: only arrays and strings have \<^verbatim>\<open>at\<close>.\<close>

fun first_count :: "jsval \<Rightarrow> error + jsval" where
  "first_count (JArr []) = Inr JUndefined"
| "first_count (JArr (c # cs)) = Inr (if nullish c then JUndefined else field c ''count'')"
| "first_count (JStr s) = Inr JUndefined"
| "first_count _ = Inl TypeError"

text \<open>The aggregation branch of \<^verbatim>\<open>_getItemsAndCount\<close>. Destructuring the first document
  of the result throws when there is none.\<close>

definition aggregate_path ::
  "store \<Rightarrow> config \<Rightarrow> jsval list \<Rightarrow> queryOptions \<Rightarrow> store_call list \<times> (error + pageResult)" where
  "aggregate_path st cfg pipeline qo =
     (let queryAggregate = getAggregatePipeline pipeline qo
      in ([Aggregate queryAggregate (allowDiskUse cfg)],
          (case st_aggregate st queryAggregate (allowDiskUse cfg) of
             None \<Rightarrow> Inl StoreOperationError
           | Some [] \<Rightarrow> Inl TypeError
           | Some (resultArray # _) \<Rightarrow>
               if nullish resultArray then Inl TypeError
               else (case first_count (field resultArray ''count'') of
                       Inl e \<Rightarrow> Inl e
                     | Inr c \<Rightarrow>
                         Inr \<lparr> pr_items = field resultArray ''items'', pr_count = c \<rparr>))))"

text \<open>The direct branch: \<^verbatim>\<open>find\<close> and \<^verbatim>\<open>count\<close> are both issued, and \<^verbatim>\<open>Promise.all\<close>
  gives the page only when both are fulfilled.\<close>

definition direct_path ::
  "store \<Rightarrow> config \<Rightarrow> jsval \<Rightarrow> queryOptions \<Rightarrow> store_call list \<times> (error + pageResult)" where
  "direct_path st cfg query qo =
     (let qo' = (if allowDiskUse cfg \<and> \<not> awsDocumentDb cfg
                 then qo\<lparr>qo_allowDiskUse := Some True\<rparr> else qo)
      in ([Find query qo', Count query],
          (case (st_find st query qo', st_count st query) of
             (Some items, Some n) \<Rightarrow> Inr \<lparr> pr_items = JArr items, pr_count = n \<rparr>
           | _ \<Rightarrow> Inl StoreOperationError)))"

text \<open>\<^verbatim>\<open>_getItemsAndCount\<close>. Spreading \<^verbatim>\<open>...pipeline\<close> throws for an object, which is not
  iterable.\<close>

definition getItemsAndCount ::
  "host \<Rightarrow> config \<Rightarrow> store \<Rightarrow> query_params \<Rightarrow> queryOptions
     \<Rightarrow> store_call list \<times> (error + pageResult)" where
  "getItemsAndCount h cfg st q qo =
     (case getQuery h q of
        Inl e \<Rightarrow> ([], Inl e)
      | Inr query \<Rightarrow>
          if q_runAggregate q = Some ''on'' then
            (case constructor_is_Array query of
               Inl e \<Rightarrow> ([], Inl e)
             | Inr False \<Rightarrow> direct_path st cfg query qo
             | Inr True \<Rightarrow>
                 (case query of
                    JArr xs \<Rightarrow>
                      if length xs > 0 then aggregate_path st cfg xs qo
                      else direct_path st cfg (JObj []) qo
                  | JObj kvs \<Rightarrow>
                      if own_length_gt_zero h kvs then ([], Inl TypeError)
                      else direct_path st cfg (JObj []) qo
                  | _ \<Rightarrow> direct_path st cfg (JObj []) qo))
          else direct_path st cfg query qo)"

section \<open>Size guard\<close>

text \<open>The stub that replaces a large value. \<^verbatim>\<open>JSON.stringify(v).slice(0, 25)\<close> throws
  when the rendering is undefined.\<close>

definition stub ::
  "host \<Rightarrow> string \<Rightarrow> string \<Rightarrow> int \<Rightarrow> jsval \<Rightarrow> jsval \<Rightarrow> error + jsval" where
  "stub h prop display maxsz v idv =
     (case JSON_stringify h v of
        None \<Rightarrow> Inl TypeError
      | Some t \<Rightarrow>
          Inr (JObj
            [(''attribu'', JStr prop),
             (''display'', JStr display),
             (''humanSz'', JStr (bytesToSize h (roughSizeOfObject h v))),
             (''maxSize'', JStr (bytesToSize h maxsz)),
             (''preview'', JStr (take 25 t)),
             (''roughSz'', num (roughSizeOfObject h v)),
             (''_id'', idv)]))"

text \<open>\<^verbatim>\<open>items[i][prop] = s\<close>: a field the document has keeps its place; a new field
  comes last.\<close>

definition set_field :: "(string \<times> jsval) list \<Rightarrow> string \<Rightarrow> jsval \<Rightarrow> (string \<times> jsval) list" where
  "set_field d prop s =
     (case map_of d prop of
        None \<Rightarrow> d @ [(prop, s)]
      | Some old \<Rightarrow> map (\<lambda>(k, x). if k = prop then (k, s) else (k, x)) d)"

text \<open>The first loop over the fields of a document: the fields still to visit, and the
  document as the earlier steps have left it.\<close>

fun per_field_pass ::
  "host \<Rightarrow> config \<Rightarrow> string list \<Rightarrow> (string \<times> jsval) list \<Rightarrow> error + (string \<times> jsval) list" where
  "per_field_pass h cfg [] d = Inr d"
| "per_field_pass h cfg (prop # props) d =
     (if roughSizeOfObject h (field (JObj d) prop) > maxPropSize cfg then
        (case stub h prop ''*** LARGE PROPERTY ***'' (maxPropSize cfg)
                (field (JObj d) prop) (field (JObj d) ''_id'') of
           Inl e \<Rightarrow> Inl e
         | Inr s \<Rightarrow> per_field_pass h cfg props (set_field d prop s))
      else per_field_pass h cfg props d)"

text \<open>The second loop, run when the row is still too big.\<close>

fun per_row_pass ::
  "host \<Rightarrow> config \<Rightarrow> string list \<Rightarrow> (string \<times> jsval) list \<Rightarrow> error + (string \<times> jsval) list" where
  "per_row_pass h cfg [] d = Inr d"
| "per_row_pass h cfg (prop # props) d =
     (if prop \<noteq> ''_id'' \<and> roughSizeOfObject h (field (JObj d) prop) > 200 then
        (case stub h prop ''*** LARGE ROW ***'' (maxRowSize cfg)
                (field (JObj d) prop) (field (JObj d) ''_id'') of
           Inl e \<Rightarrow> Inl e
         | Inr s \<Rightarrow> per_row_pass h cfg props (set_field d prop s))
      else per_row_pass h cfg props d)"

text \<open>The preparation of one item in \<^verbatim>\<open>viewCollection\<close>, before it is stored in
  \<^verbatim>\<open>docs\<close>.\<close>

definition prep_item ::
  "host \<Rightarrow> config \<Rightarrow> (string \<times> jsval) list \<Rightarrow> error + (string \<times> jsval) list" where
  "prep_item h cfg d =
     (case per_field_pass h cfg (map fst d) d of
        Inl e \<Rightarrow> Inl e
      | Inr d1 \<Rightarrow>
          if roughSizeOfObject h (JObj d1) > maxRowSize cfg
          then per_row_pass h cfg (map fst d1) d1
          else Inr d1)"

section \<open>Importer\<close>

record upload =
  mimetype :: string
  data :: "string option"

definition ALLOWED_MIME_TYPES :: "string list" where
  "ALLOWED_MIME_TYPES = [''text/csv'', ''application/json'']"

text \<open>\<^verbatim>\<open>fileContent.split('\n')\<close>.\<close>

fun split_lines :: "string \<Rightarrow> string list" where
  "split_lines [] = [[]]"
| "split_lines (c # cs) =
     (if c = CHR 0x0A then [] # split_lines cs
      else (case split_lines cs of l # ls \<Rightarrow> (c # l) # ls | [] \<Rightarrow> [[c]]))"

definition file_lines :: "string \<Rightarrow> string list" where
  "file_lines fileContent = filter (\<lambda>line. line \<noteq> []) (map trim (split_lines fileContent))"

text \<open>The elements that \<^verbatim>\<open>...parsedData\<close> passes to \<^verbatim>\<open>push\<close>: those of an array, the
  characters of a string; any other value is not iterable and the spread throws.\<close>

fun spread :: "jsval \<Rightarrow> jsval list option" where
  "spread (JArr xs) = Some xs"
| "spread (JStr s) = Some (map (\<lambda>c. JStr [c]) s)"
| "spread _ = None"

text \<open>The loop over the lines of one file; \<open>None\<close> is the \<^verbatim>\<open>catch\<close> branch.\<close>

fun parse_lines :: "host \<Rightarrow> jsval list \<Rightarrow> string list \<Rightarrow> jsval list option" where
  "parse_lines h docs [] = Some docs"
| "parse_lines h docs (line # rest) =
     (case EJSON_parse h line of
        None \<Rightarrow> None
      | Some parsedData \<Rightarrow>
          (case spread parsedData of
             None \<Rightarrow> None
           | Some xs \<Rightarrow> parse_lines h (docs @ xs) rest))"

text \<open>The loop over the files; a file that passed the check has its data.\<close>

fun parse_files :: "host \<Rightarrow> jsval list \<Rightarrow> upload list \<Rightarrow> jsval list option" where
  "parse_files h docs [] = Some docs"
| "parse_files h docs (file # files) =
     (case parse_lines h docs (file_lines (the (data file))) of
        None \<Rightarrow> None
      | Some docs' \<Rightarrow> parse_files h docs' files)"

definition invalid_file :: "upload \<Rightarrow> bool" where
  "invalid_file file = (mimetype file \<notin> set ALLOWED_MIME_TYPES \<or> data file = None)"

text \<open>The decimal text of an integer, as the template literal of the answer renders
  \<^verbatim>\<open>insertedCount\<close>.\<close>

fun show_nat :: "nat \<Rightarrow> string" where
  "show_nat n =
     (if n < 10 then [''0123456789'' ! n] else show_nat (n div 10) @ [''0123456789'' ! (n mod 10)])"

definition show_int :: "int \<Rightarrow> string" where
  "show_int i = (if i < 0 then CHR ''-'' # show_nat (nat (- i)) else show_nat (nat i))"

datatype response = Response nat string

text \<open>\<^verbatim>\<open>importCollection\<close>: the response sent and the store operations issued.
  \<open>None\<close> is a request without \<^verbatim>\<open>req.files\<close>.\<close>

definition importCollection ::
  "host \<Rightarrow> store \<Rightarrow> upload list option \<Rightarrow> response \<times> store_call list" where
  "importCollection h st req_files =
     (case req_files of
        None \<Rightarrow> (Response 400 ''Missing file'', [])
      | Some files \<Rightarrow>
          if list_ex invalid_file files then (Response 400 ''Bad file'', [])
          else (case parse_files h [] files of
                  None \<Rightarrow> (Response 400 ''Bad file content'', [])
                | Some docs \<Rightarrow>
                    ((case st_insertMany st docs of
                        Some insertedCount \<Rightarrow>
                          Response 200 (show_int insertedCount @ '' document(s) inserted'')
                      | None \<Rightarrow> Response 500 ''Server error''),
                     [InsertMany docs])))"

section \<open>A sample environment\<close>

text \<open>
  Concrete helpers, a configuration and requests, on which the theorems below are
  evaluated.
\<close>

text \<open>Modelled from the spec: \<^verbatim>\<open>roughSizeOfObject\<close> of \<^verbatim>\<open>lib/utils.js\<close> is not among the
  sources. Section 4.7: strings and buffers contribute their length, structures
  contribute the recursive sum. Nothing is said of other scalars, which count 0 here.\<close>

fun roughSizeOfObject_spec :: "jsval \<Rightarrow> int"
  and rough_elems :: "jsval list \<Rightarrow> int"
  and rough_fields :: "(string \<times> jsval) list \<Rightarrow> int" where
  "roughSizeOfObject_spec (JStr s) = int (length s)"
| "roughSizeOfObject_spec (JBinary b t) = int (length b)"
| "roughSizeOfObject_spec (JArr xs) = rough_elems xs"
| "roughSizeOfObject_spec (JObj kvs) = rough_fields kvs"
| "roughSizeOfObject_spec JUndefined = 0"
| "roughSizeOfObject_spec JNull = 0"
| "roughSizeOfObject_spec (JBool b) = 0"
| "roughSizeOfObject_spec (JNum n) = 0"
| "roughSizeOfObject_spec (JRegExp p f) = 0"
| "roughSizeOfObject_spec (JObjectId x) = 0"
| "rough_elems [] = 0"
| "rough_elems (x # xs) = roughSizeOfObject_spec x + rough_elems xs"
| "rough_fields [] = 0"
| "rough_fields (kv # kvs) = roughSizeOfObject_spec (snd kv) + rough_fields kvs"

text \<open>Modelled from the spec: \<^verbatim>\<open>bytesToSize\<close> of \<^verbatim>\<open>lib/utils.js\<close> is not among the sources.
  Section 4.7 asks for a human-readable size; here it is the count and a unit.\<close>

definition bytesToSize_spec :: "int \<Rightarrow> string" where
  "bytesToSize_spec n = show_int n @ '' Bytes''"

text \<open>Modelled from the spec: \<^verbatim>\<open>parseObjectId\<close> of \<^verbatim>\<open>lib/bson.js\<close> is not among the
  sources. Section 4.1: a 24-hex-character store identifier; malformed input is a parse
  error.\<close>

definition parseObjectId_spec :: "string \<Rightarrow> jsval option" where
  "parseObjectId_spec s =
     (if length s = 24 \<and> list_all (\<lambda>c. hex_value c \<noteq> None) s
      then Some (JObjectId s) else None)"

text \<open>\<^verbatim>\<open>JSON.stringify\<close> on values made of null, booleans, integers, strings of printable
  ASCII, arrays, objects, regular expressions and identifiers. An undefined field is
  left out and an undefined element is \<^verbatim>\<open>null\<close>, as are NaN and the infinities. The sample
  has no rendering for the other numbers and for binary values; no example holds one.\<close>

definition quote :: "string \<Rightarrow> string" where
  "quote s =
     CHR 0x22 #
     concat (map (\<lambda>c. if c = CHR 0x22 \<or> c = CHR 0x5C then [CHR 0x5C, c] else [c]) s)
     @ [CHR 0x22]"

fun join :: "string list \<Rightarrow> string" where
  "join [] = []"
| "join [x] = x"
| "join (x # y # r) = x @ '','' @ join (y # r)"

fun stringify :: "jsval \<Rightarrow> string option"
  and stringify_elems :: "jsval list \<Rightarrow> string list"
  and stringify_fields :: "(string \<times> jsval) list \<Rightarrow> string list" where
  "stringify JUndefined = None"
| "stringify JNull = Some ''null''"
| "stringify (JBool b) = Some (if b then ''true'' else ''false'')"
| "stringify (JNum n) =
     (case n of
        Integral (Finite i) \<Rightarrow> Some (show_int i)
      | Integral PlusInfinity \<Rightarrow> Some ''null''
      | Integral MinusInfinity \<Rightarrow> Some ''null''
      | NaN \<Rightarrow> Some ''null''
      | Other t \<Rightarrow> None)"
| "stringify (JStr s) = Some (quote s)"
| "stringify (JArr xs) = Some (''['' @ join (stringify_elems xs) @ '']'')"
| "stringify (JObj kvs) = Some (''{'' @ join (stringify_fields kvs) @ ''}'')"
| "stringify (JRegExp p f) = Some ''{}''"
| "stringify (JBinary b t) = None"
| "stringify (JObjectId x) = Some (quote x)"
| "stringify_elems [] = []"
| "stringify_elems (x # xs) =
     (case stringify x of None \<Rightarrow> ''null'' | Some t \<Rightarrow> t) # stringify_elems xs"
| "stringify_fields [] = []"
| "stringify_fields (kv # kvs) =
     (case stringify (snd kv) of
        None \<Rightarrow> stringify_fields kvs
      | Some t \<Rightarrow> (quote (fst kv) @ '':'' @ t) # stringify_fields kvs)"

text \<open>\<^verbatim>\<open>v > 0\<close> on undefined, null, booleans, integers and infinities.\<close>

definition gt_zero_sample :: "jsval \<Rightarrow> bool" where
  "gt_zero_sample v =
     (case v of
        JNum (Integral (Finite n)) \<Rightarrow> 0 < n
      | JNum (Integral PlusInfinity) \<Rightarrow> True
      | JBool b \<Rightarrow> b
      | _ \<Rightarrow> False)"

text \<open>The parsers are tabulated on the texts of the examples. A text outside a table
  counts as unparsable; the examples use such a text only where it is malformed. No
  example converts a pattern, and the sample lets every pattern compile.\<close>

definition sample_host :: host where
  "sample_host =
     \<lparr> JSON_parse = map_of
         [(''null'', JNull),
          (''{\"name\":\"Array\"}'', JObj [(''name'', JStr ''Array'')])],
       EJSON_parse = map_of
         [(''{\"a\":1}'', JObj [(''a'', num 1)]),
          (''{\"b\":2}'', JObj [(''b'', num 2)]),
          (''[{\"a\":1}]'', JArr [JObj [(''a'', num 1)]]),
          (''[{\"b\":2}]'', JArr [JObj [(''b'', num 2)]])],
       RegExp_compiles = (\<lambda>s. True),
       parseObjectId = parseObjectId_spec,
       toSafeBSON = (\<lambda>s.
         case map_of
           [(''[{$match:{x:1}}]'', JArr [JObj [(''$match'', JObj [(''x'', num 1)])]]),
            (''[]'', JArr []),
            (''{x:1}'', JObj [(''x'', num 1)])] s of
           Some v \<Rightarrow> v
         | None \<Rightarrow> JNull),
       roughSizeOfObject = roughSizeOfObject_spec,
       bytesToSize = bytesToSize_spec,
       JSON_stringify = stringify,
       gt_zero = gt_zero_sample \<rparr>"

definition sample_config :: config where
  "sample_config =
     \<lparr> documentsPerPage = 10, maxPropSize = 30, maxRowSize = 1000,
       allowDiskUse = False, awsDocumentDb = False \<rparr>"

text \<open>The request without any parameter.\<close>

definition empty_request :: query_params where
  "empty_request =
     \<lparr> q_key = None, q_value = None, q_type = None, q_query = None, q_sort = None,
       q_projection = None, q_skip = None, q_runAggregate = None \<rparr>"

text \<open>A collection without documents: no document matches a pipeline or a filter, and
  every insert is confirmed.\<close>

definition sample_store :: store where
  "sample_store =
     \<lparr> st_aggregate =
         (\<lambda>pipeline adu. Some [JObj [(''count'', JArr []), (''items'', JArr [])]]),
       st_find = (\<lambda>query qo. Some []),
       st_count = (\<lambda>query. Some (num 0)),
       st_insertMany = (\<lambda>docs. Some (int (length docs))) \<rparr>"

definition wide_config :: config where
  "wide_config =
     \<lparr> documentsPerPage = 10, maxPropSize = 100, maxRowSize = 1000,
       allowDiskUse = False, awsDocumentDb = False \<rparr>"

text \<open>Requests that ask for the aggregation path: a simple query on the field
  \<^verbatim>\<open>constructor\<close> with the JSON values \<^verbatim>\<open>null\<close> and \<^verbatim>\<open>{"name":"Array"}\<close>, and a raw
  pipeline.\<close>

definition constructor_null_request :: query_params where
  "constructor_null_request =
     empty_request\<lparr>q_key := Some ''constructor'', q_value := Some ''null'',
       q_type := Some ''J'', q_runAggregate := Some ''on''\<rparr>"

definition constructor_Array_request :: query_params where
  "constructor_Array_request =
     empty_request\<lparr>q_key := Some ''constructor'', q_value := Some ''{\"name\":\"Array\"}'',
       q_type := Some ''J'', q_runAggregate := Some ''on''\<rparr>"

definition pipeline_request :: query_params where
  "pipeline_request =
     empty_request\<lparr>q_query := Some ''[{$match:{x:1}}]'', q_runAggregate := Some ''on''\<rparr>"

text \<open>Documents: one whose identifier is a text of 40 characters, one with a field of 40
  characters and the stub that replaces it under \<open>sample_config\<close>, one with a field of
  120 characters and the stub that replaces it under \<open>wide_config\<close>.\<close>

definition large_id_doc :: "(string \<times> jsval) list" where
  "large_id_doc =
     [(''_id'', JStr ''0123456789012345678901234567890123456789''), (''a'', JStr ''x'')]"

definition large_field_doc :: "(string \<times> jsval) list" where
  "large_field_doc =
     [(''_id'', JStr ''1''), (''a'', JStr ''xxxxxxxxxxxxxxxxxxxxxxxxxxxxxxxxxxxxxxxx'')]"

definition large_field_stub :: jsval where
  "large_field_stub = JObj
     [(''attribu'', JStr ''a''),
      (''display'', JStr ''*** LARGE PROPERTY ***''),
      (''humanSz'', JStr ''40 Bytes''),
      (''maxSize'', JStr ''30 Bytes''),
      (''preview'', JStr (CHR 0x22 # ''xxxxxxxxxxxxxxxxxxxxxxxx'')),
      (''roughSz'', JNum (Fin 40)),
      (''_id'', JStr ''1'')]"

definition long_field_doc :: "(string \<times> jsval) list" where
  "long_field_doc =
     [(''_id'', JStr ''1''),
      (''a'', JStr (''xxxxxxxxxxxxxxxxxxxxxxxxxxxxxxxxxxxxxxxxxxxxxxxxxxxxxxxxxxxx''
                   @ ''xxxxxxxxxxxxxxxxxxxxxxxxxxxxxxxxxxxxxxxxxxxxxxxxxxxxxxxxxxxx''))]"

definition long_field_stub :: jsval where
  "long_field_stub = JObj
     [(''attribu'', JStr ''a''),
      (''display'', JStr ''*** LARGE PROPERTY ***''),
      (''humanSz'', JStr ''120 Bytes''),
      (''maxSize'', JStr ''100 Bytes''),
      (''preview'', JStr (CHR 0x22 # ''xxxxxxxxxxxxxxxxxxxxxxxx'')),
      (''roughSz'', JNum (Fin 120)),
      (''_id'', JStr ''1'')]"

text \<open>Uploads of two lines: two object literals, two array literals of one document, an
  array literal and a line that breaks off.\<close>

definition object_lines_file :: upload where
  "object_lines_file =
     \<lparr> mimetype = ''application/json'',
       data = Some (''{\"a\":1}'' @ [CHR 0x0A] @ ''{\"b\":2}'' @ [CHR 0x0A]) \<rparr>"

definition array_lines_file :: upload where
  "array_lines_file =
     \<lparr> mimetype = ''application/json'',
       data = Some (''[{\"a\":1}]'' @ [CHR 0x0A] @ ''[{\"b\":2}]'' @ [CHR 0x0A]) \<rparr>"

definition broken_line_file :: upload where
  "broken_line_file =
     \<lparr> mimetype = ''application/json'',
       data = Some (''[{\"a\":1}]'' @ [CHR 0x0A] @ ''[{\"b\":'' @ [CHR 0x0A]) \<rparr>"

section \<open>Predicates of the properties\<close>






text \<open>A document that neither loop of the size guard touches: every field is at most
  the per-field threshold, and the row is at most the per-row threshold or every field
  but the identifier is at most 200.\<close>

definition within_thresholds :: "host \<Rightarrow> config \<Rightarrow> (string \<times> jsval) list \<Rightarrow> bool" where
  "within_thresholds h cfg d =
     ((\<forall>(k, v) \<in> set d. roughSizeOfObject h v \<le> maxPropSize cfg)
      \<and> (roughSizeOfObject h (JObj d) \<le> maxRowSize cfg
         \<or> (\<forall>(k, v) \<in> set d. k = ''_id'' \<or> roughSizeOfObject h v \<le> 200)))"

text \<open>A value with exactly the seven fields of a stub, in the order in which the guard
  writes them.\<close>

definition is_stub :: "jsval \<Rightarrow> bool" where
  "is_stub v =
     (case v of
        JObj kvs \<Rightarrow>
          map fst kvs =
            [''attribu'', ''display'', ''humanSz'', ''maxSize'', ''preview'', ''roughSz'', ''_id'']
      | _ \<Rightarrow> False)"

text \<open>The stubs of a document are small enough not to be replaced again: each is at
  most the per-field threshold, and the row is at most the per-row threshold or each stub
  outside the identifier field is at most 200.\<close>

definition stubs_within :: "host \<Rightarrow> config \<Rightarrow> (string \<times> jsval) list \<Rightarrow> bool" where
  "stubs_within h cfg d =
     ((\<forall>(k, v) \<in> set d. is_stub v \<longrightarrow> roughSizeOfObject h v \<le> maxPropSize cfg)
      \<and> (roughSizeOfObject h (JObj d) \<le> maxRowSize cfg
         \<or> (\<forall>(k, v) \<in> set d. is_stub v \<and> k \<noteq> ''_id'' \<longrightarrow> roughSizeOfObject h v \<le> 200)))"

text \<open>A line that makes the import fail: it does not parse, or it parses to a value that
  cannot be spread.\<close>

definition bad_line :: "host \<Rightarrow> string \<Rightarrow> bool" where
  "bad_line h line =
     (case EJSON_parse h line of None \<Rightarrow> True | Some parsedData \<Rightarrow> spread parsedData = None)"

definition bad_content :: "host \<Rightarrow> upload \<Rightarrow> bool" where
  "bad_content h file = list_ex (bad_line h) (file_lines (the (data file)))"

text \<open>An integral double or infinity that is not below zero.\<close>

fun non_negative :: "integral \<Rightarrow> bool" where
  "non_negative (Finite n) = (0 \<le> n)"
| "non_negative PlusInfinity = True"
| "non_negative MinusInfinity = False"

section \<open>Doubles of integers\<close>

lemma bit_length_nonpos: "n \<le> 0 \<Longrightarrow> bit_length n = 0"
  by (simp add: bit_length.simps [of n])

lemma bit_length_pos: "0 < n \<Longrightarrow> bit_length n = Suc (bit_length (n div 2))"
  by (simp add: bit_length.simps [of n])

lemma bit_length_less: "n < 2 ^ k \<Longrightarrow> bit_length n \<le> k"
proof (induction k arbitrary: n)
  case 0
  then show ?case by (simp add: bit_length_nonpos)
next
  case (Suc k)
  show ?case
  proof (cases "n \<le> 0")
    case True
    then show ?thesis by (simp add: bit_length_nonpos)
  next
    case False
    from Suc.prems have "n div 2 < 2 ^ k" by simp
    then have "bit_length (n div 2) \<le> k" by (rule Suc.IH)
    moreover from False have "bit_length n = Suc (bit_length (n div 2))"
      by (intro bit_length_pos) simp
    ultimately show ?thesis by simp
  qed
qed

lemma bit_length_lower: "0 < n \<Longrightarrow> 2 ^ (bit_length n - 1) \<le> n"
proof (induction n rule: bit_length.induct)
  case (1 n)
  show ?case
  proof (cases "n div 2 \<le> 0")
    case True
    from 1(2) have "bit_length n = Suc (bit_length (n div 2))" by (rule bit_length_pos)
    moreover from True have "bit_length (n div 2) = 0" by (rule bit_length_nonpos)
    ultimately have "bit_length n = Suc 0" by simp
    with 1(2) show ?thesis by simp
  next
    case False
    with 1 have ih: "2 ^ (bit_length (n div 2) - 1) \<le> n div 2" by simp
    from False have "0 < n div 2" by simp
    then have "bit_length (n div 2) = Suc (bit_length (n div 2 div 2))" by (rule bit_length_pos)
    then have "0 < bit_length (n div 2)" by simp
    moreover from 1(2) have "bit_length n = Suc (bit_length (n div 2))"
      by (rule bit_length_pos)
    ultimately have "(2::int) ^ (bit_length n - 1) = 2 * 2 ^ (bit_length (n div 2) - 1)"
      by (cases "bit_length (n div 2)") simp_all
    with ih show ?thesis by simp
  qed
qed

text \<open>An integer below 2^53 is a double.\<close>

lemma round_exact:
  assumes "n < 2 ^ 53"
  shows "round_to_double n = Some n"
proof -
  from assms have "bit_length n \<le> 53" by (rule bit_length_less)
  then have e: "bit_length n - 53 = 0" by simp
  from assms have "\<not> (2::int) ^ 1024 \<le> n" by simp
  with e show ?thesis by (simp add: round_to_double_def Let_def)
qed

text \<open>Rounding keeps at least the leading binary digit: a positive integer does not
  round to zero.\<close>

lemma round_positive:
  assumes "0 < n" and "round_to_double n = Some m"
  shows "0 < m"
proof -
  define e where "e = bit_length n - 53"
  have "(2::int) ^ e \<le> 2 ^ (bit_length n - 1)"
    unfolding e_def by (rule power_increasing) simp_all
  also from assms(1) have "\<dots> \<le> n" by (rule bit_length_lower)
  finally have "0 < n div 2 ^ e"
    by (simp add: pos_imp_zdiv_pos_iff)
  then have "0 < (if 2 ^ e < 2 * (n mod 2 ^ e) \<or> (2 * (n mod 2 ^ e) = 2 ^ e \<and> odd (n div 2 ^ e))
                  then n div 2 ^ e + 1 else n div 2 ^ e) * 2 ^ e"
    by simp
  with assms(2) show ?thesis
    by (simp add: round_to_double_def Let_def e_def [symmetric] split: if_splits)
qed

lemma round_zero: "round_to_double 0 = Some 0"
  by (rule round_exact) simp

text \<open>The double of an integer has the sign of the integer.\<close>

lemma to_double_sign: "non_negative (to_double n) = (0 \<le> n)"
proof (cases "n < 0")
  case True
  then show ?thesis
    using round_positive [of "- n"]
    by (auto simp add: to_double_def split: option.splits)
next
  case False
  show ?thesis
  proof (cases "n = 0")
    case True
    then show ?thesis by (simp add: to_double_def round_zero)
  next
    case False
    with \<open>\<not> n < 0\<close> have "0 < n" by simp
    then show ?thesis
      using round_positive [of n]
      by (auto simp add: to_double_def split: option.splits)
  qed
qed

text \<open>An integer of magnitude below 2^53 is its own double.\<close>

lemma to_double_exact:
  assumes "\<bar>n\<bar> < 2 ^ 53"
  shows "to_double n = Finite n"
proof (cases "0 \<le> n")
  case True
  with assms have "round_to_double n = Some n" by (intro round_exact) simp
  with True show ?thesis by (simp add: to_double_def)
next
  case False
  with assms have "round_to_double (- n) = Some (- n)" by (intro round_exact) simp
  with False show ?thesis by (simp add: to_double_def)
qed

lemma to_double_zero_iff: "(to_double n = Finite 0) = (n = 0)"
proof
  assume z: "to_double n = Finite 0"
  show "n = 0"
  proof (rule ccontr)
    assume "n \<noteq> 0"
    then consider "0 < n" | "n < 0" by linarith
    then show False
    proof cases
      case 1
      with z round_positive [of n] show False
        by (auto simp add: to_double_def split: option.splits)
    next
      case 2
      with z round_positive [of "- n"] show False
        by (auto simp add: to_double_def split: option.splits)
    qed
  qed
next
  assume "n = 0"
  then show "to_double n = Finite 0" by (simp add: to_double_exact)
qed

text \<open>Beyond 2^53 a double skips integers, and beyond the largest double there are only
  the infinities.\<close>

lemma to_double_examples:
  "to_double 9007199254740993 = Finite 9007199254740992"
  "to_double (- 9007199254740995) = Finite (- 9007199254740996)"
  "to_double (10 ^ 309) = PlusInfinity"
  "to_double (- (10 ^ 309)) = MinusInfinity"
  by code_simp+

section \<open>The aggregation pipeline builder\<close>

lemma plus_double_exact:
  assumes "\<bar>lim + n\<bar> < 2 ^ 53"
  shows "plus_double lim (Finite n) = Finite (lim + n)"
  using assms by (simp add: to_double_exact)


text \<open>The scenario of the specification: pipeline \<^verbatim>\<open>[{$match:{x:1}}]\<close>, sort \<^verbatim>\<open>{y:1}\<close>,
  skip 0 and limit 20.\<close>

lemma getAggregatePipeline_scenario:
  "getAggregatePipeline [JObj [(''$match'', JObj [(''x'', num 1)])]]
     \<lparr> qo_sort = [(''y'', num 1)], qo_limit = 20, qo_skip = Finite 0,
       qo_projection = JObj [], qo_allowDiskUse = None \<rparr>
   = [JObj [(''$match'', JObj [(''x'', num 1)])],
      JObj [(''$sort'', JObj [(''y'', num 1)])],
      JObj [(''$facet'', JObj
        [(''count'', JArr [JObj [(''$count'', JStr ''count'')]]),
         (''items'', JArr [JObj [(''$skip'', num 0)], JObj [(''$limit'', num 20)]])])]]"
  by (simp add: getAggregatePipeline_def facet_stage_def num_def to_double_exact)

section \<open>The typed converters and the query builder\<close>




text \<open>The converter of the tag U gives a binary value of 16 bytes for the text of a
  UUID.\<close>

lemma conv_U_example:
  "conv_U ''00112233-4455-6677-8899-aabbccddeeff''
     = Inr (JBinary [0, 17, 34, 51, 68, 85, 102, 119, 136, 153, 170, 187, 204, 221, 238, 255] 4)"
  by code_simp




text \<open>
  Claim C5. For every request whose key and value are both present (not empty) and
  whose upper-cased type tag names a converter, the query builder returns the filter
  with the single field \<open>key\<close> bound to the converted value, whenever the converter
  returns one; when the converter throws, its error is the builder's.
\<close>

theorem simple_query_filter:
  assumes "q_key q = Some k" and "k \<noteq> []" and "q_value q = Some v" and "v \<noteq> []"
    and "q_type q = Some t" and "converters h (toUpperCase t) = Some conv"
  shows "getQuery h q = (case conv v of Inl e \<Rightarrow> Inl e | Inr cv \<Rightarrow> Inr (JObj [(k, cv)]))"
  using assms by (cases "conv v") (simp_all add: getQuery_def)

text \<open>The scenarios of the specification: \<^verbatim>\<open>key=name, value=Alice, type=S\<close> gives
  \<^verbatim>\<open>{name: "Alice"}\<close>, and \<^verbatim>\<open>key=age, value=42, type=N\<close> gives \<^verbatim>\<open>{age: 42}\<close>.\<close>

theorem simple_query_filter_witness:
  "getQuery sample_host
     (empty_request\<lparr>q_key := Some ''name'', q_value := Some ''Alice'', q_type := Some ''S''\<rparr>)
     = Inr (JObj [(''name'', JStr ''Alice'')])
   \<and> getQuery sample_host
     (empty_request\<lparr>q_key := Some ''age'', q_value := Some ''42'', q_type := Some ''N''\<rparr>)
     = Inr (JObj [(''age'', JNum (Fin 42))])"
proof -
  have S: "converters sample_host (toUpperCase ''S'') = Some conv_S"
    by (simp add: converters_def toUpperCase_def upper_char_def)
  have N: "converters sample_host (toUpperCase ''N'') = Some conv_N"
    by (simp add: converters_def toUpperCase_def upper_char_def)
  have 42: "conv_N ''42'' = Inr (JNum (Fin 42))"
    by (simp add: conv_N_def Number_of_def trim_def is_ws_def is_digit_def digits_value_def
        to_double_exact)
  show ?thesis
    using simple_query_filter [of
        "empty_request\<lparr>q_key := Some ''name'', q_value := Some ''Alice'', q_type := Some ''S''\<rparr>"
        "''name''" "''Alice''" "''S''" sample_host conv_S, OF _ _ _ _ _ S]
      simple_query_filter [of
        "empty_request\<lparr>q_key := Some ''age'', q_value := Some ''42'', q_type := Some ''N''\<rparr>"
        "''age''" "''42''" "''N''" sample_host conv_N, OF _ _ _ _ _ N]
    by (simp add: 42 conv_S_def)
qed

text \<open>
  Claim C10. The simple-query branch is taken only when key and value are both
  truthy. For every request in which the key or the value is absent or empty, whatever
  the other and the type tag are, the builder returns what the raw query literal alone
  gives: the parsed literal when the literal is present and not empty (an error when
  it does not parse), and the empty filter otherwise.
\<close>

theorem query_fall_through:
  assumes "\<not> (truthy (q_key q) \<and> truthy (q_value q))"
  shows "getQuery h q =
     (case q_query q of
        None \<Rightarrow> Inr (JObj [])
      | Some jsonQuery \<Rightarrow>
          if jsonQuery = [] then Inr (JObj [])
          else if toSafeBSON h jsonQuery = JNull then Inl QueryNotValid
          else Inr (toSafeBSON h jsonQuery))"
  using assms by (cases "q_query q") (auto simp: getQuery_def Let_def)

text \<open>A key with an empty value is ignored: without a raw literal the filter is empty;
  with the literal \<^verbatim>\<open>{x:1}\<close> the filter is that literal; with a literal that does not
  parse the builder fails, even for a type tag that no converter has.\<close>

theorem query_fall_through_witness:
  "getQuery sample_host
     (empty_request\<lparr>q_key := Some ''name'', q_value := Some [], q_type := Some ''S''\<rparr>)
     = Inr (JObj [])
   \<and> getQuery sample_host
     (empty_request\<lparr>q_key := Some [], q_value := Some ''Alice'', q_type := Some ''S'',
        q_query := Some ''{x:1}''\<rparr>)
     = Inr (JObj [(''x'', JNum (Fin 1))])
   \<and> getQuery sample_host
     (empty_request\<lparr>q_key := Some ''name'', q_value := Some [], q_type := Some ''?'',
        q_query := Some ''{x:''\<rparr>)
     = Inl QueryNotValid"
  using query_fall_through [of
      "empty_request\<lparr>q_key := Some ''name'', q_value := Some [], q_type := Some ''S''\<rparr>"
      sample_host]
    query_fall_through [of
      "empty_request\<lparr>q_key := Some [], q_value := Some ''Alice'', q_type := Some ''S'',
        q_query := Some ''{x:1}''\<rparr>" sample_host]
    query_fall_through [of
      "empty_request\<lparr>q_key := Some ''name'', q_value := Some [], q_type := Some ''?'',
        q_query := Some ''{x:''\<rparr>" sample_host]
  by (simp add: empty_request_def sample_host_def num_def)

section \<open>Paging options\<close>

lemma resolve_skip_value:
  "resolve_skip p =
     (case p of
        None \<Rightarrow> Finite 0
      | Some s \<Rightarrow> (case leading_integer s of None \<Rightarrow> Finite 0 | Some n \<Rightarrow> to_double n))"
  by (simp add: resolve_skip_def parseInt10_def split: option.splits)

text \<open>The raw skips \<^verbatim>\<open>9007199254740993\<close> and a run of 310 digits: the first resolves to
  the neighbouring double, the second to an infinity.\<close>

lemma resolve_skip_rounds:
  "resolve_skip (Some ''9007199254740993'') = Finite 9007199254740992"
  by code_simp

lemma resolve_skip_overflows:
  "resolve_skip (Some (''1'' @ replicate 309 CHR ''0'')) = PlusInfinity"
  by code_simp

text \<open>
  Claim C9, as the code has it: \<^verbatim>\<open>-5\<close> as the raw skip resolves to the skip -5, which is
  negative.
\<close>

theorem negative_skip_counterexample:
  "qo_skip (getQueryOptions sample_host sample_config (empty_request\<lparr>q_skip := Some ''-5''\<rparr>))
     = Finite (- 5)
   \<and> \<not> non_negative (qo_skip
       (getQueryOptions sample_host sample_config (empty_request\<lparr>q_skip := Some ''-5''\<rparr>)))"
  by code_simp

text \<open>
  Claim C9, amended. For every request the resolved limit is the configured page size,
  and the resolved skip is an integral double or an infinity, never NaN: 0 when the raw
  skip is absent or has no leading integer, and otherwise the double nearest the integer
  that the raw skip starts with, which is that integer when its magnitude is below 2^53
  and an infinity when it is beyond the range of the doubles. The skip is non-negative
  exactly when the raw skip is absent, has no leading integer, or starts with a
  non-negative one.
\<close>

theorem resolved_paging:
  "qo_limit (getQueryOptions h cfg q) = documentsPerPage cfg
   \<and> qo_skip (getQueryOptions h cfg q) =
       (case q_skip q of
          None \<Rightarrow> Finite 0
        | Some s \<Rightarrow>
            (case leading_integer s of
               None \<Rightarrow> Finite 0
             | Some n \<Rightarrow> if \<bar>n\<bar> < 2 ^ 53 then Finite n else to_double n))
   \<and> non_negative (qo_skip (getQueryOptions h cfg q)) =
       (case q_skip q of
          None \<Rightarrow> True
        | Some s \<Rightarrow> (case leading_integer s of None \<Rightarrow> True | Some n \<Rightarrow> 0 \<le> n))"
  by (simp add: getQueryOptions_def resolve_skip_value to_double_sign to_double_exact
      split: option.splits)

section \<open>The result executor\<close>

text \<open>The branches of \<^verbatim>\<open>_getItemsAndCount\<close>, for a request whose query resolves.\<close>

lemma getItemsAndCount_pipeline:
  assumes "getQuery h q = Inr (JArr (x # xs))" and "q_runAggregate q = Some ''on''"
  shows "getItemsAndCount h cfg st q qo = aggregate_path st cfg (x # xs) qo"
  using assms by (simp add: getItemsAndCount_def)

lemma getItemsAndCount_empty_pipeline:
  assumes "getQuery h q = Inr (JArr [])" and "q_runAggregate q = Some ''on''"
  shows "getItemsAndCount h cfg st q qo = direct_path st cfg (JObj []) qo"
  using assms by (simp add: getItemsAndCount_def)

lemma getItemsAndCount_not_requested:
  assumes "getQuery h q = Inr query" and "q_runAggregate q \<noteq> Some ''on''"
  shows "getItemsAndCount h cfg st q qo = direct_path st cfg query qo"
  using assms by (simp add: getItemsAndCount_def)

lemma getItemsAndCount_filter:
  assumes "getQuery h q = Inr (JObj kvs)" and "map_of kvs ''constructor'' = None"
  shows "getItemsAndCount h cfg st q qo = direct_path st cfg (JObj kvs) qo"
  using assms by (simp add: getItemsAndCount_def)

text \<open>A filter with a field of its own called \<^verbatim>\<open>constructor\<close>, in a request that asks for
  the aggregation: the executor throws when the field is null or undefined, and drops
  the filter when the field's \<^verbatim>\<open>name\<close> is \<^verbatim>\<open>Array\<close> and the filter has no \<^verbatim>\<open>length\<close>.\<close>

lemma getItemsAndCount_constructor_nullish:
  assumes "getQuery h q = Inr (JObj kvs)" and "q_runAggregate q = Some ''on''"
    and "map_of kvs ''constructor'' = Some c" and "nullish c"
  shows "getItemsAndCount h cfg st q qo = ([], Inl TypeError)"
  using assms by (simp add: getItemsAndCount_def)

lemma getItemsAndCount_constructor_Array:
  assumes "getQuery h q = Inr (JObj kvs)" and "q_runAggregate q = Some ''on''"
    and "map_of kvs ''constructor'' = Some (JObj c)" and "map_of c ''name'' = Some (JStr ''Array'')"
    and "map_of kvs ''length'' = None"
  shows "getItemsAndCount h cfg st q qo = direct_path st cfg (JObj []) qo"
  using assms by (simp add: getItemsAndCount_def own_length_gt_zero_def)

text \<open>An aggregation is issued only for a request that asks for it and whose query is a
  pipeline with a stage.\<close>

lemma aggregate_only_for_pipeline:
  assumes "Aggregate p a \<in> set (fst (getItemsAndCount h cfg st q qo))"
  shows "q_runAggregate q = Some ''on'' \<and> (\<exists>x xs. getQuery h q = Inr (JArr (x # xs)))"
  using assms
  by (auto simp: getItemsAndCount_def direct_path_def aggregate_path_def Let_def neq_Nil_conv
      split: sum.splits if_splits bool.splits jsval.splits list.splits)

text \<open>The direct path issues one \<^verbatim>\<open>find\<close> and one \<^verbatim>\<open>count\<close> over the same filter.\<close>

lemma direct_path_calls:
  "\<exists>qo'. fst (direct_path st cfg query qo) = [Find query qo', Count query]"
  by (simp add: direct_path_def Let_def)

text \<open>
  Claim C2 says that the executor runs the direct path whenever it does not run the
  aggregation. The type test \<^verbatim>\<open>query.constructor.name === 'Array'\<close> reads the filter's own
  field \<^verbatim>\<open>constructor\<close> when it has one. For the request \<^verbatim>\<open>key=constructor, value=null,
  type=J, runAggregate=on\<close> the filter is \<^verbatim>\<open>{constructor: null}\<close> and the executor throws a
  type error without any store operation. For the value \<^verbatim>\<open>{"name":"Array"}\<close> the filter
  passes for an array without length, and \<^verbatim>\<open>find\<close> and \<^verbatim>\<open>count\<close> run over the empty
  filter instead of the resolved one.
\<close>

theorem own_constructor_field_dispatch:
  "getQuery sample_host constructor_null_request = Inr (JObj [(''constructor'', JNull)])
   \<and> getItemsAndCount sample_host sample_config sample_store constructor_null_request
        (getQueryOptions sample_host sample_config constructor_null_request)
      = ([], Inl TypeError)
   \<and> getQuery sample_host constructor_Array_request
      = Inr (JObj [(''constructor'', JObj [(''name'', JStr ''Array'')])])
   \<and> fst (getItemsAndCount sample_host sample_config sample_store constructor_Array_request
        (getQueryOptions sample_host sample_config constructor_Array_request))
      = [Find (JObj []) (getQueryOptions sample_host sample_config constructor_Array_request),
         Count (JObj [])]"
  by code_simp

text \<open>When the \<^verbatim>\<open>count\<close> branch of the facet is empty, the count of the page is
  undefined.\<close>

lemma aggregate_path_empty_count:
  assumes "st_aggregate st (getAggregatePipeline pipeline qo) (allowDiskUse cfg)
             = Some [JObj [(''count'', JArr []), (''items'', its)]]"
  shows "snd (aggregate_path st cfg pipeline qo)
           = Inr \<lparr> pr_items = its, pr_count = JUndefined \<rparr>"
  using assms by (simp add: aggregate_path_def)

text \<open>
  Claim C6 says that the count of the page is zero when the facet's \<^verbatim>\<open>count\<close>
  sub-result is empty. For the pipeline \<^verbatim>\<open>[{$match:{x:1}}]\<close> on a collection in which no
  document matches, the store answers \<^verbatim>\<open>[{count: [], items: []}]\<close>, and the page holds
  no item and the count \<^verbatim>\<open>undefined\<close>.
\<close>

theorem aggregate_count_undefined:
  "getQuery sample_host pipeline_request
     = Inr (JArr [JObj [(''$match'', JObj [(''x'', JNum (Fin 1))])]])
   \<and> snd (getItemsAndCount sample_host sample_config sample_store pipeline_request
        (getQueryOptions sample_host sample_config pipeline_request))
     = Inr \<lparr> pr_items = JArr [], pr_count = JUndefined \<rparr>"
  by code_simp

section \<open>The size guard\<close>

lemma field_of_key:
  assumes "p \<in> set (map fst d)"
  shows "(p, field (JObj d) p) \<in> set d"
proof -
  from assms obtain v where "map_of d p = Some v"
    by (cases "map_of d p") (auto simp: map_of_eq_None_iff)
  then show ?thesis by (auto dest: map_of_SomeD)
qed

lemma per_field_pass_unchanged:
  assumes "\<forall>p \<in> set props. roughSizeOfObject h (field (JObj d) p) \<le> maxPropSize cfg"
  shows "per_field_pass h cfg props d = Inr d"
  using assms by (induction props) simp_all

lemma per_row_pass_unchanged:
  assumes "\<forall>p \<in> set props. p = ''_id'' \<or> roughSizeOfObject h (field (JObj d) p) \<le> 200"
  shows "per_row_pass h cfg props d = Inr d"
  using assms by (induction props) (auto simp del: field.simps)

text \<open>A document within the thresholds passes the guard unmodified.\<close>

lemma prep_item_unchanged:
  assumes "within_thresholds h cfg d"
  shows "prep_item h cfg d = Inr d"
proof -
  have small: "\<forall>p \<in> set (map fst d). roughSizeOfObject h (field (JObj d) p) \<le> maxPropSize cfg"
  proof
    fix p assume "p \<in> set (map fst d)"
    then have "(p, field (JObj d) p) \<in> set d" by (rule field_of_key)
    moreover have "\<forall>(k, v) \<in> set d. roughSizeOfObject h v \<le> maxPropSize cfg"
      using assms by (simp add: within_thresholds_def)
    ultimately show "roughSizeOfObject h (field (JObj d) p) \<le> maxPropSize cfg" by blast
  qed
  have first: "per_field_pass h cfg (map fst d) d = Inr d"
    using small by (rule per_field_pass_unchanged)
  show ?thesis
  proof (cases "roughSizeOfObject h (JObj d) \<le> maxRowSize cfg")
    case True
    with first show ?thesis by (simp add: prep_item_def)
  next
    case False
    with assms have all: "\<forall>(k, v) \<in> set d. k = ''_id'' \<or> roughSizeOfObject h v \<le> 200"
      by (simp add: within_thresholds_def)
    have "\<forall>p \<in> set (map fst d). p = ''_id'' \<or> roughSizeOfObject h (field (JObj d) p) \<le> 200"
    proof
      fix p assume "p \<in> set (map fst d)"
      then have "(p, field (JObj d) p) \<in> set d" by (rule field_of_key)
      with all show "p = ''_id'' \<or> roughSizeOfObject h (field (JObj d) p) \<le> 200" by blast
    qed
    then have "per_row_pass h cfg (map fst d) d = Inr d"
      by (rule per_row_pass_unchanged)
    with first False show ?thesis by (simp add: prep_item_def)
  qed
qed

text \<open>The first loop replaces any field whose size exceeds the per-field threshold,
  the identifier included.\<close>

lemma per_field_pass_replaces_identifier:
  assumes "roughSizeOfObject h idv > maxPropSize cfg"
    and "stub h ''_id'' ''*** LARGE PROPERTY ***'' (maxPropSize cfg) idv idv = Inr s"
  shows "per_field_pass h cfg [''_id''] [(''_id'', idv)] = Inr [(''_id'', s)]"
  using assms by (simp add: set_field_def)

text \<open>
  Claim C7 says that the per-field pass never replaces the identifier. The first loop
  has no test on the field name, unlike the second. Under the thresholds 30 and 1000, a
  document whose \<^verbatim>\<open>_id\<close> is a text of 40 characters leaves the guard with a stub in the
  place of its \<^verbatim>\<open>_id\<close>.
\<close>

theorem identifier_redacted:
  "prep_item sample_host sample_config large_id_doc =
     Inr [(''_id'', JObj
            [(''attribu'', JStr ''_id''),
             (''display'', JStr ''*** LARGE PROPERTY ***''),
             (''humanSz'', JStr ''40 Bytes''),
             (''maxSize'', JStr ''30 Bytes''),
             (''preview'', JStr (CHR 0x22 # ''012345678901234567890123'')),
             (''roughSz'', JNum (Fin 40)),
             (''_id'', JStr ''0123456789012345678901234567890123456789'')]),
          (''a'', JStr ''x'')]"
  by code_simp

text \<open>
  Claim C8, as stated, fails. Under the thresholds 30 and 1000 the guard replaces a
  field of 40 characters by a stub of size 65, which is above the per-field threshold:
  the guard applied to its own output replaces the stub again, by a stub that describes
  the first one.
\<close>

theorem not_idempotent_counterexample:
  "prep_item sample_host sample_config large_field_doc
     = Inr [(''_id'', JStr ''1''), (''a'', large_field_stub)]
   \<and> roughSizeOfObject sample_host large_field_stub = 65
   \<and> prep_item sample_host sample_config [(''_id'', JStr ''1''), (''a'', large_field_stub)]
     \<noteq> Inr [(''_id'', JStr ''1''), (''a'', large_field_stub)]"
  by code_simp

lemma stub_is_stub: "stub h p disp m v idv = Inr s \<Longrightarrow> is_stub s"
  by (auto simp: stub_def is_stub_def split: option.splits)

lemma map_of_replace:
  "map_of (map (\<lambda>(k, x). if k = p then (k, s) else (k, x)) d) q
     = (if q = p then map_option (\<lambda>x. s) (map_of d q) else map_of d q)"
  by (induction d) auto

lemma field_set_field:
  "field (JObj (set_field d p s)) q = (if q = p then s else field (JObj d) q)"
  by (cases "map_of d p") (auto simp: set_field_def map_of_replace map_add_def split: option.splits)

lemma keys_set_field:
  assumes "p \<in> set (map fst d)"
  shows "map fst (set_field d p s) = map fst d"
proof -
  from assms obtain v where "map_of d p = Some v"
    by (cases "map_of d p") (auto simp: map_of_eq_None_iff)
  then have "set_field d p s = map (\<lambda>(k, x). if k = p then (k, s) else (k, x)) d"
    by (simp add: set_field_def)
  moreover have "map fst (map (\<lambda>(k, x). if k = p then (k, s) else (k, x)) d) = map fst d"
    by (induction d) auto
  ultimately show ?thesis by simp
qed

text \<open>What the first loop leaves: the fields in their order, each either untouched and
  at most the per-field threshold, or a stub.\<close>

lemma per_field_pass_result:
  assumes "per_field_pass h cfg props d = Inr d1" and "distinct props"
    and "set props \<subseteq> set (map fst d)"
  shows "map fst d1 = map fst d
    \<and> (\<forall>q. q \<notin> set props \<longrightarrow> field (JObj d1) q = field (JObj d) q)
    \<and> (\<forall>q \<in> set props.
          (field (JObj d1) q = field (JObj d) q
             \<and> roughSizeOfObject h (field (JObj d) q) \<le> maxPropSize cfg)
          \<or> is_stub (field (JObj d1) q))"
  using assms
proof (induction props arbitrary: d)
  case Nil
  then show ?case by simp
next
  case (Cons x xs)
  show ?case
  proof (cases "roughSizeOfObject h (field (JObj d) x) > maxPropSize cfg")
    case False
    with Cons.prems have run: "per_field_pass h cfg xs d = Inr d1" by simp
    from Cons.prems have "distinct xs" "set xs \<subseteq> set (map fst d)" "x \<notin> set xs"
      by auto
    with Cons.IH [OF run] False show ?thesis by (auto simp del: field.simps)
  next
    case True
    with Cons.prems obtain s where
      s: "stub h x ''*** LARGE PROPERTY ***'' (maxPropSize cfg)
            (field (JObj d) x) (field (JObj d) ''_id'') = Inr s"
      and run: "per_field_pass h cfg xs (set_field d x s) = Inr d1"
      by (auto split: sum.splits)
    from Cons.prems have p: "x \<in> set (map fst d)" "x \<notin> set xs" "distinct xs"
      by auto
    have keys: "map fst (set_field d x s) = map fst d"
      using p(1) by (rule keys_set_field)
    with Cons.prems have sub: "set xs \<subseteq> set (map fst (set_field d x s))" by auto
    note ih = Cons.IH [OF run p(3) sub]
    have stub: "is_stub s" using s by (rule stub_is_stub)
    have at_x: "field (JObj d1) x = s"
      using ih p(2) by (simp add: field_set_field del: field.simps)
    have others: "\<forall>q. q \<notin> set (x # xs) \<longrightarrow> field (JObj d1) q = field (JObj d) q"
      using ih by (simp add: field_set_field del: field.simps)
    have later: "\<forall>q \<in> set xs.
          (field (JObj d1) q = field (JObj d) q
             \<and> roughSizeOfObject h (field (JObj d) q) \<le> maxPropSize cfg)
          \<or> is_stub (field (JObj d1) q)"
    proof
      fix q assume q: "q \<in> set xs"
      with p(2) have "q \<noteq> x" by auto
      with ih q show "(field (JObj d1) q = field (JObj d) q
             \<and> roughSizeOfObject h (field (JObj d) q) \<le> maxPropSize cfg)
          \<or> is_stub (field (JObj d1) q)"
        by (auto simp: field_set_field simp del: field.simps)
    qed
    from ih keys have "map fst d1 = map fst d" by simp
    with others later at_x stub show ?thesis by (simp del: field.simps)
  qed
qed

text \<open>What the second loop leaves: each field either untouched, and then the
  identifier or at most 200, or a stub.\<close>

lemma per_row_pass_result:
  assumes "per_row_pass h cfg props d = Inr d1" and "distinct props"
    and "set props \<subseteq> set (map fst d)"
  shows "map fst d1 = map fst d
    \<and> (\<forall>q. q \<notin> set props \<longrightarrow> field (JObj d1) q = field (JObj d) q)
    \<and> (\<forall>q \<in> set props.
          (field (JObj d1) q = field (JObj d) q
             \<and> (q = ''_id'' \<or> roughSizeOfObject h (field (JObj d) q) \<le> 200))
          \<or> is_stub (field (JObj d1) q))"
  using assms
proof (induction props arbitrary: d)
  case Nil
  then show ?case by simp
next
  case (Cons x xs)
  show ?case
  proof (cases "x \<noteq> ''_id'' \<and> roughSizeOfObject h (field (JObj d) x) > 200")
    case False
    with Cons.prems have run: "per_row_pass h cfg xs d = Inr d1" by auto
    from Cons.prems have "distinct xs" "set xs \<subseteq> set (map fst d)" "x \<notin> set xs"
      by auto
    with Cons.IH [OF run] False show ?thesis by (auto simp del: field.simps)
  next
    case True
    with Cons.prems obtain s where
      s: "stub h x ''*** LARGE ROW ***'' (maxRowSize cfg)
            (field (JObj d) x) (field (JObj d) ''_id'') = Inr s"
      and run: "per_row_pass h cfg xs (set_field d x s) = Inr d1"
      by (auto split: sum.splits)
    from Cons.prems have p: "x \<in> set (map fst d)" "x \<notin> set xs" "distinct xs"
      by auto
    have keys: "map fst (set_field d x s) = map fst d"
      using p(1) by (rule keys_set_field)
    with Cons.prems have sub: "set xs \<subseteq> set (map fst (set_field d x s))" by auto
    note ih = Cons.IH [OF run p(3) sub]
    have stub: "is_stub s" using s by (rule stub_is_stub)
    have at_x: "field (JObj d1) x = s"
      using ih p(2) by (simp add: field_set_field del: field.simps)
    have others: "\<forall>q. q \<notin> set (x # xs) \<longrightarrow> field (JObj d1) q = field (JObj d) q"
      using ih by (simp add: field_set_field del: field.simps)
    have later: "\<forall>q \<in> set xs.
          (field (JObj d1) q = field (JObj d) q
             \<and> (q = ''_id'' \<or> roughSizeOfObject h (field (JObj d) q) \<le> 200))
          \<or> is_stub (field (JObj d1) q)"
    proof
      fix q assume q: "q \<in> set xs"
      with p(2) have "q \<noteq> x" by auto
      with ih q show "(field (JObj d1) q = field (JObj d) q
             \<and> (q = ''_id'' \<or> roughSizeOfObject h (field (JObj d) q) \<le> 200))
          \<or> is_stub (field (JObj d1) q)"
        by (auto simp: field_set_field simp del: field.simps)
    qed
    from ih keys have "map fst d1 = map fst d" by simp
    with others later at_x stub show ?thesis by (simp del: field.simps)
  qed
qed


lemma field_of_entry:
  assumes "distinct (map fst d)" and "(k, v) \<in> set d"
  shows "field (JObj d) k = v"
  using assms by simp

text \<open>In the output of the guard only a stub can exceed a threshold.\<close>

lemma stubs_within_thresholds:
  assumes dist: "distinct (map fst d)" and run: "prep_item h cfg d = Inr d'"
    and stubs: "stubs_within h cfg d'"
  shows "within_thresholds h cfg d'"
proof -
  let ?M = "maxPropSize cfg"
  let ?sz = "roughSizeOfObject h"
  from run obtain d1 where
    first: "per_field_pass h cfg (map fst d) d = Inr d1"
    and rest: "(if ?sz (JObj d1) > maxRowSize cfg
                then per_row_pass h cfg (map fst d1) d1 else Inr d1) = Inr d'"
    by (auto simp: prep_item_def split: sum.splits)
  from per_field_pass_result [OF first dist]
  have keys1: "map fst d1 = map fst d"
    and f1: "\<forall>q \<in> set (map fst d). ?sz (field (JObj d1) q) \<le> ?M \<or> is_stub (field (JObj d1) q)"
    by auto
  from stubs have s1: "\<forall>(k, v) \<in> set d'. is_stub v \<longrightarrow> ?sz v \<le> ?M"
    by (simp add: stubs_within_def)
  show ?thesis
  proof (cases "?sz (JObj d1) > maxRowSize cfg")
    case False
    with rest have eq: "d' = d1" by simp
    have "\<forall>(k, v) \<in> set d'. ?sz v \<le> ?M"
    proof (clarify)
      fix k v assume kv: "(k, v) \<in> set d'"
      from dist keys1 have "distinct (map fst d1)" by simp
      with kv eq have v: "field (JObj d1) k = v" by (simp only: field_of_entry)
      from kv eq have "k \<in> set (map fst d1)" by force
      with keys1 have k: "k \<in> set (map fst d)" by simp
      from f1 k v have "?sz v \<le> ?M \<or> is_stub v" by auto
      with s1 kv show "?sz v \<le> ?M" by auto
    qed
    with False eq show ?thesis by (simp add: within_thresholds_def)
  next
    case True
    with rest have second: "per_row_pass h cfg (map fst d1) d1 = Inr d'" by simp
    from dist keys1 have dist1: "distinct (map fst d1)" by simp
    from per_row_pass_result [OF second dist1]
    have keys2: "map fst d' = map fst d1"
      and f2: "\<forall>q \<in> set (map fst d1).
          (field (JObj d') q = field (JObj d1) q
             \<and> (q = ''_id'' \<or> ?sz (field (JObj d1) q) \<le> 200))
          \<or> is_stub (field (JObj d') q)"
      by auto
    from keys2 dist1 have dist2: "distinct (map fst d')" by simp
    have small: "\<forall>(k, v) \<in> set d'. ?sz v \<le> ?M"
    proof (clarify)
      fix k v assume kv: "(k, v) \<in> set d'"
      with dist2 have v: "field (JObj d') k = v" by (rule field_of_entry)
      from kv have "k \<in> set (map fst d')" by force
      with keys2 keys1 have k: "k \<in> set (map fst d1)" "k \<in> set (map fst d)" by simp_all
      show "?sz v \<le> ?M"
      proof (cases "is_stub v")
        case True
        with s1 kv show ?thesis by auto
      next
        case False
        with f2 k(1) v have "v = field (JObj d1) k" by auto
        with f1 k(2) False show ?thesis by auto
      qed
    qed
    have row: "?sz (JObj d') \<le> maxRowSize cfg
         \<or> (\<forall>(k, v) \<in> set d'. k = ''_id'' \<or> ?sz v \<le> 200)"
    proof (cases "?sz (JObj d') \<le> maxRowSize cfg")
      case True
      then show ?thesis by simp
    next
      case False
      with stubs have s2: "\<forall>(k, v) \<in> set d'. is_stub v \<and> k \<noteq> ''_id'' \<longrightarrow> ?sz v \<le> 200"
        by (simp add: stubs_within_def)
      have "\<forall>(k, v) \<in> set d'. k = ''_id'' \<or> ?sz v \<le> 200"
      proof (clarify)
        fix k v assume kv: "(k, v) \<in> set d'" and big: "\<not> ?sz v \<le> 200"
        with dist2 have v: "field (JObj d') k = v" by (simp only: field_of_entry)
        from kv have "k \<in> set (map fst d')" by force
        with keys2 have k: "k \<in> set (map fst d1)" by simp
        show "k = ''_id''"
        proof (cases "is_stub v")
          case True
          with s2 kv big show ?thesis by auto
        next
          case False
          with f2 k v big show ?thesis by auto
        qed
      qed
      then show ?thesis by simp
    qed
    from small row show ?thesis by (simp add: within_thresholds_def)
  qed
qed

text \<open>
  Claim C8, amended. For every document with distinct field names on which the guard
  returns: if every stub in the output has a computed size of at most the per-field
  threshold and, when the output row still exceeds the per-row threshold, every stub
  outside the identifier field has a computed size of at most 200, then the guard
  applied to the output returns the output unchanged.
\<close>

theorem prep_item_idempotent:
  assumes "distinct (map fst d)" and "prep_item h cfg d = Inr d'"
    and "stubs_within h cfg d'"
  shows "prep_item h cfg d' = Inr d'"
  using assms by (intro prep_item_unchanged stubs_within_thresholds)

text \<open>Under the thresholds 100 and 1000 a field of 120 characters is replaced by a stub
  of size 67, and the guard leaves its own output as it is.\<close>

theorem prep_item_idempotent_witness:
  "distinct (map fst long_field_doc)
   \<and> prep_item sample_host wide_config long_field_doc
     = Inr [(''_id'', JStr ''1''), (''a'', long_field_stub)]
   \<and> is_stub long_field_stub
   \<and> roughSizeOfObject sample_host long_field_stub = 67
   \<and> stubs_within sample_host wide_config [(''_id'', JStr ''1''), (''a'', long_field_stub)]
   \<and> prep_item sample_host wide_config [(''_id'', JStr ''1''), (''a'', long_field_stub)]
     = Inr [(''_id'', JStr ''1''), (''a'', long_field_stub)]"
proof -
  have 0: "distinct (map fst long_field_doc)"
    by code_simp
  have 1: "prep_item sample_host wide_config long_field_doc
     = Inr [(''_id'', JStr ''1''), (''a'', long_field_stub)]"
    by code_simp
  have 2: "stubs_within sample_host wide_config
      [(''_id'', JStr ''1''), (''a'', long_field_stub)]"
    by code_simp
  have 3: "is_stub long_field_stub" "roughSizeOfObject sample_host long_field_stub = 67"
    by code_simp+
  from prep_item_idempotent [OF 0 1 2] 0 1 2 3 show ?thesis by simp
qed

section \<open>The importer\<close>

lemma parse_lines_None: "(parse_lines h docs ls = None) = list_ex (bad_line h) ls"
  by (induction ls arbitrary: docs) (auto simp: bad_line_def split: option.splits)

lemma parse_files_None: "(parse_files h docs fs = None) = list_ex (bad_content h) fs"
proof (induction fs arbitrary: docs)
  case Nil
  show ?case by simp
next
  case (Cons f fs)
  show ?case
  proof (cases "parse_lines h docs (file_lines (the (data f)))")
    case None
    then have "bad_content h f" by (simp add: bad_content_def parse_lines_None)
    with None show ?thesis by simp
  next
    case (Some docs')
    then have "\<not> bad_content h f"
      using parse_lines_None [of h docs "file_lines (the (data f))"]
      by (simp add: bad_content_def)
    with Some Cons.IH [of docs'] show ?thesis by simp
  qed
qed

lemma import_rejected:
  assumes "list_ex invalid_file fs \<or> list_ex (bad_content h) fs"
  shows "\<exists>m. importCollection h st (Some fs) = (Response 400 m, [])"
proof (cases "list_ex invalid_file fs")
  case True
  then show ?thesis by (simp add: importCollection_def)
next
  case False
  with assms have "parse_files h [] fs = None" by (simp add: parse_files_None)
  with False show ?thesis by (simp add: importCollection_def)
qed

text \<open>A batch without an invalid file and without a bad line is inserted in one
  operation.\<close>

lemma import_accepted:
  assumes "\<not> list_ex invalid_file fs" and "\<not> list_ex (bad_content h) fs"
  shows "\<exists>docs. parse_files h [] fs = Some docs
           \<and> snd (importCollection h st (Some fs)) = [InsertMany docs]"
proof -
  from assms(2) obtain docs where "parse_files h [] fs = Some docs"
    using parse_files_None [of h "[]" fs] by (cases "parse_files h [] fs") auto
  with assms(1) show ?thesis by (simp add: importCollection_def)
qed

lemma import_two_array_lines:
  assumes "\<not> invalid_file f" and "data f = Some content"
    and "file_lines content = [l1, l2]"
    and "EJSON_parse h l1 = Some (JArr [d1])" and "EJSON_parse h l2 = Some (JArr [d2])"
  shows "importCollection h st (Some [f]) =
     ((case st_insertMany st [d1, d2] of
         Some insertedCount \<Rightarrow> Response 200 (show_int insertedCount @ '' document(s) inserted'')
       | None \<Rightarrow> Response 500 ''Server error''),
      [InsertMany [d1, d2]])"
  using assms by (simp add: importCollection_def)

text \<open>
  Claim C3, as stated, fails on its second half. Two lines that each hold a well-formed
  object literal parse, but an object cannot be spread into \<^verbatim>\<open>push\<close>: the importer
  answers 400 with \<^verbatim>\<open>Bad file content\<close> and inserts nothing.
\<close>

theorem object_lines_counterexample:
  "file_lines (the (data object_lines_file)) = [''{\"a\":1}'', ''{\"b\":2}'']
   \<and> EJSON_parse sample_host ''{\"a\":1}'' = Some (JObj [(''a'', JNum (Fin 1))])
   \<and> EJSON_parse sample_host ''{\"b\":2}'' = Some (JObj [(''b'', JNum (Fin 2))])
   \<and> importCollection sample_host sample_store (Some [object_lines_file])
       = (Response 400 ''Bad file content'', [])"
  by code_simp

text \<open>
  Claim C3, amended. The importer is all-or-nothing: for every uploaded batch, if a
  payload has a content type that is not allowed or has no data, or a non-blank line
  does not parse as an extended literal or parses to a value that cannot be spread (an
  object, a number, a boolean, null), the answer is a 400 error and no insert is
  issued. For a payload of two non-blank lines that each hold a well-formed array
  literal of one document, one \<^verbatim>\<open>insertMany\<close> of the two documents is issued, and the
  answer reports the inserted count that the store confirms (a 500 error when the store
  rejects the insert).
\<close>

theorem import_all_or_nothing:
  "(list_ex invalid_file fs \<or> list_ex (bad_content h) fs
      \<longrightarrow> (\<exists>m. importCollection h st (Some fs) = (Response 400 m, [])))
   \<and> (\<not> invalid_file f \<and> data f = Some content \<and> file_lines content = [l1, l2]
        \<and> EJSON_parse h l1 = Some (JArr [d1]) \<and> EJSON_parse h l2 = Some (JArr [d2])
      \<longrightarrow> importCollection h st (Some [f]) =
            ((case st_insertMany st [d1, d2] of
                Some insertedCount \<Rightarrow>
                  Response 200 (show_int insertedCount @ '' document(s) inserted'')
              | None \<Rightarrow> Response 500 ''Server error''),
             [InsertMany [d1, d2]]))"
proof (intro conjI impI)
  assume "list_ex invalid_file fs \<or> list_ex (bad_content h) fs"
  then show "\<exists>m. importCollection h st (Some fs) = (Response 400 m, [])"
    by (rule import_rejected)
next
  assume "\<not> invalid_file f \<and> data f = Some content \<and> file_lines content = [l1, l2]
        \<and> EJSON_parse h l1 = Some (JArr [d1]) \<and> EJSON_parse h l2 = Some (JArr [d2])"
  then show "importCollection h st (Some [f]) =
            ((case st_insertMany st [d1, d2] of
                Some insertedCount \<Rightarrow>
                  Response 200 (show_int insertedCount @ '' document(s) inserted'')
              | None \<Rightarrow> Response 500 ''Server error''),
             [InsertMany [d1, d2]])"
    by (simp add: import_two_array_lines)
qed

text \<open>A batch whose second payload breaks off in its second line is rejected as a
  whole, and a payload of two array lines has its two documents inserted.\<close>

theorem import_all_or_nothing_witness:
  "(\<exists>m. importCollection sample_host sample_store (Some [array_lines_file, broken_line_file])
         = (Response 400 m, []))
   \<and> importCollection sample_host sample_store (Some [array_lines_file])
       = (Response 200 ''2 document(s) inserted'',
          [InsertMany [JObj [(''a'', JNum (Fin 1))], JObj [(''b'', JNum (Fin 2))]]])"
proof -
  let ?content = "''[{\"a\":1}]'' @ [CHR 0x0A] @ ''[{\"b\":2}]'' @ [CHR 0x0A]"
  have bad: "list_ex (bad_content sample_host) [array_lines_file, broken_line_file]"
    by code_simp
  have ok: "\<not> invalid_file array_lines_file"
    "data array_lines_file = Some ?content"
    "file_lines ?content = [''[{\"a\":1}]'', ''[{\"b\":2}]'']"
    "EJSON_parse sample_host ''[{\"a\":1}]'' = Some (JArr [JObj [(''a'', JNum (Fin 1))]])"
    "EJSON_parse sample_host ''[{\"b\":2}]'' = Some (JArr [JObj [(''b'', JNum (Fin 2))]])"
    by code_simp+
  have n: "(case st_insertMany sample_store
              [JObj [(''a'', JNum (Fin 1))], JObj [(''b'', JNum (Fin 2))]] of
         Some insertedCount \<Rightarrow> Response 200 (show_int insertedCount @ '' document(s) inserted'')
       | None \<Rightarrow> Response 500 ''Server error'') = Response 200 ''2 document(s) inserted''"
    by code_simp
  from import_all_or_nothing [where fs = "[array_lines_file, broken_line_file]"
      and h = sample_host and st = sample_store] bad
  have 1: "\<exists>m. importCollection sample_host sample_store
                 (Some [array_lines_file, broken_line_file]) = (Response 400 m, [])"
    by blast
  from import_all_or_nothing [where fs = "[]" and h = sample_host and st = sample_store
      and f = array_lines_file and content = ?content
      and ?l1.0 = "''[{\"a\":1}]''" and ?l2.0 = "''[{\"b\":2}]''"
      and ?d1.0 = "JObj [(''a'', JNum (Fin 1))]" and ?d2.0 = "JObj [(''b'', JNum (Fin 2))]"] ok n
  have 2: "importCollection sample_host sample_store (Some [array_lines_file])
       = (Response 200 ''2 document(s) inserted'',
          [InsertMany [JObj [(''a'', JNum (Fin 1))], JObj [(''b'', JNum (Fin 2))]]])"
    by simp
  from 1 2 show ?thesis by blast
qed

end
